theory Spec2Isabelle
  imports Main "HOL-Library.AList"
begin

section \<open>JavaScript values\<close>

text \<open>
  The values that travel through the engine: call inputs, page cursors, parsed bodies and
  the elements of a query key. An object is the list of its own properties, in the order
  in which the language enumerates them. A string is the list of its code units, each
  below 256. A number is represented by the text that the language's number-to-string
  conversion gives for it (\<open>10\<close>, \<open>0.5\<close>, \<open>1e+21\<close>, \<open>NaN\<close>): the engine
  observes of a number only its truthiness and its string conversion, and both are
  determined by that text.
\<close>

datatype jsval =
    JUndefined
  | JNull
  | JBool bool
  | JNum string
  | JStr string
  | JArr "jsval list"
  | JObj "(string \<times> jsval) list"

text \<open>Truthiness, as \<open>||\<close> tests it: of the numbers, zero and \<open>NaN\<close> are falsy.\<close>

fun truthy :: "jsval \<Rightarrow> bool" where
  "truthy JUndefined = False"
| "truthy JNull = False"
| "truthy (JBool b) = b"
| "truthy (JNum t) = (t \<noteq> ''0'' \<and> t \<noteq> ''NaN'')"
| "truthy (JStr s) = (s \<noteq> [])"
| "truthy (JArr xs) = True"
| "truthy (JObj kvs) = True"

text \<open>\<open>a || b\<close> and \<open>a ?? b\<close>.\<close>

definition js_or :: "jsval \<Rightarrow> jsval \<Rightarrow> jsval" where
  "js_or a b = (if truthy a then a else b)"

definition nullish :: "jsval \<Rightarrow> jsval \<Rightarrow> jsval" where
  "nullish a b = (if a = JUndefined \<or> a = JNull then b else a)"

text \<open>
  \<open>v?.k\<close> for a key \<open>k\<close> that no built-in prototype defines (the source reads
  \<open>message\<close> and \<open>query\<close> only): undefined on a nullish value, the own property of an
  object, undefined on every other value.
\<close>

fun opt_prop :: "jsval \<Rightarrow> string \<Rightarrow> jsval" where
  "opt_prop (JObj kvs) k = (case map_of kvs k of Some v \<Rightarrow> v | None \<Rightarrow> JUndefined)"
| "opt_prop v k = JUndefined"

text \<open>Decimal rendering of an array index, as a property key.\<close>

definition digit_char :: "nat \<Rightarrow> char" where
  "digit_char n = char_of (48 + n)"

function show_nat :: "nat \<Rightarrow> string" where
  "show_nat n = (if n < 10 then [digit_char n] else show_nat (n div 10) @ [digit_char (n mod 10)])"
  by pat_completeness auto
termination
  by (relation "measure (\<lambda>n. n)") auto

fun join :: "string \<Rightarrow> string list \<Rightarrow> string" where
  "join sep [] = []"
| "join sep [x] = x"
| "join sep (x # y # ys) = x @ sep @ join sep (y # ys)"

section \<open>Responses and errors\<close>

text \<open>
  The transport's response: the success flag, the status, and what \<open>res.json()\<close> yields
  (\<open>None\<close> when the body does not parse and the promise rejects).
\<close>

record response =
  ok :: bool
  status :: nat
  statusText :: string
  json :: "jsval option"

record hono_query_error =
  name :: string
  message :: string
  response :: response
  data :: jsval

text \<open>
  What a call can fail with: the runtime's \<open>TypeError\<close> (indexing undefined, calling
  what is not a function, \<open>in\<close> on what is not an object, converting to a string what
  cannot be converted), the plain \<open>Error\<close> of the method check, a \<open>HonoQueryError\<close>,
  the rejection of \<open>res.json()\<close> on a body that does not parse, and whatever the
  transport itself rejects with.
\<close>

datatype js_error =
    TypeError
  | PlainError string
  | RequestError hono_query_error
  | BodyParseError
  | TransportFailure string

text \<open>The conversions of a list in order: the first failure, or all the results.\<close>

fun collect :: "(js_error + 'a) list \<Rightarrow> js_error + 'a list" where
  "collect [] = Inr []"
| "collect (Inl e # rs) = Inl e"
| "collect (Inr x # rs) = (case collect rs of Inl e \<Rightarrow> Inl e | Inr xs \<Rightarrow> Inr (x # xs))"

text \<open>
  The string conversion that the \<open>Error\<close> constructor applies to its argument. An
  object converts through its \<open>toString\<close>: the inherited one gives
  \<open>[object Object]\<close>; an own \<open>toString\<close> property hides it, and since no property of
  these values is callable, and neither an own nor the inherited \<open>valueOf\<close> gives a
  primitive, the conversion then throws. An array joins the conversions of its elements
  with commas, undefined and null elements giving the empty string.
\<close>

fun js_to_string :: "jsval \<Rightarrow> js_error + string" where
  "js_to_string JUndefined = Inr ''undefined''"
| "js_to_string JNull = Inr ''null''"
| "js_to_string (JBool b) = Inr (if b then ''true'' else ''false'')"
| "js_to_string (JNum t) = Inr t"
| "js_to_string (JStr s) = Inr s"
| "js_to_string (JArr xs) =
     (case collect
             (map (\<lambda>x. if x = JUndefined \<or> x = JNull then Inr [] else js_to_string x) xs) of
        Inl e \<Rightarrow> Inl e
      | Inr ss \<Rightarrow> Inr (join '','' ss))"
| "js_to_string (JObj kvs) =
     (if map_of kvs ''toString'' \<noteq> None then Inl TypeError else Inr ''[object Object]'')"

text \<open>
  \<open>new Error(m)\<close>: no message for an undefined argument, its string conversion
  otherwise, and the conversion's failure when it has none.
\<close>

definition Error_message :: "jsval \<Rightarrow> js_error + string" where
  "Error_message m = (if m = JUndefined then Inr [] else js_to_string m)"

text \<open>The properties an object spread \<open>{...v}\<close> copies.\<close>

fun spread :: "jsval \<Rightarrow> (string \<times> jsval) list" where
  "spread (JObj kvs) = kvs"
| "spread (JArr xs) = zip (map show_nat [0..<length xs]) xs"
| "spread (JStr s) = zip (map show_nat [0..<length s]) (map (\<lambda>c. JStr [c]) s)"
| "spread v = []"

definition startsWith :: "string \<Rightarrow> string \<Rightarrow> bool" where
  "startsWith s pre = (take (length pre) s = pre)"

text \<open>
  \<open>toLowerCase\<close>: of the code units below 256, the capital letters are \<open>A\<close> to
  \<open>Z\<close> and 192 to 222 without the multiplication sign 215, each 32 below its small
  letter.
\<close>

definition toLowerChar :: "char \<Rightarrow> char" where
  "toLowerChar c =
     (let n = (of_char c :: nat) in
      if (65 \<le> n \<and> n \<le> 90) \<or> (192 \<le> n \<and> n \<le> 222 \<and> n \<noteq> 215)
      then char_of (n + 32) else c)"

definition toLowerCase :: "string \<Rightarrow> string" where
  "toLowerCase s = map toLowerChar s"

text \<open>
  The constructor of \<open>HonoQueryError\<close>: \<open>super(data?.message || res.statusText)\<close>,
  which throws when the message has no string conversion.
\<close>

definition HonoQueryError :: "response \<Rightarrow> jsval \<Rightarrow> js_error + hono_query_error" where
  "HonoQueryError res d =
     (case Error_message (js_or (opt_prop d ''message'') (JStr (statusText res))) of
        Inl e \<Rightarrow> Inl e
      | Inr msg \<Rightarrow>
          Inr \<lparr> name = ''HonoQueryError'', message = msg, response = res, data = d \<rparr>)"

section \<open>The transport client\<close>

text \<open>
  A value of the transport's object graph is given by what the engine can observe of it.
  An ordinary object, callable or not, is the map from a property name to the value read
  under that name, for every name the object has, whether as an own property or through
  its prototype chain; reading a property has no effect of its own. A callable also has
  the function it runs. A primitive other than undefined and null can be indexed like an
  object, but is not one. Undefined stands for undefined and null. The graph may be
  cyclic, as the built-in prototypes are.
\<close>

codatatype client =
    CObj "string \<Rightarrow> client option"
  | CFun "jsval \<Rightarrow> js_error + response" "string \<Rightarrow> client option"
  | CPrim "string \<Rightarrow> client option"
  | CUndefined

text \<open>The properties of an object; what is not an object has none to ask for.\<close>

fun props :: "client \<Rightarrow> (string \<Rightarrow> client option) option" where
  "props (CObj m) = Some m"
| "props (CFun f m) = Some m"
| "props (CPrim m) = None"
| "props CUndefined = None"

text \<open>\<open>acc[p]\<close>\<close>

fun index :: "client \<Rightarrow> string \<Rightarrow> js_error + client" where
  "index (CObj m) p = Inr (case m p of Some c \<Rightarrow> c | None \<Rightarrow> CUndefined)"
| "index (CFun f m) p = Inr (case m p of Some c \<Rightarrow> c | None \<Rightarrow> CUndefined)"
| "index (CPrim m) p = Inr (case m p of Some c \<Rightarrow> c | None \<Rightarrow> CUndefined)"
| "index CUndefined p = Inl TypeError"

text \<open>\<open>path.reduce((acc, p) => acc[p], client)\<close>\<close>

fun resolve :: "client \<Rightarrow> string list \<Rightarrow> js_error + client" where
  "resolve acc [] = Inr acc"
| "resolve acc (p # ps) = (case index acc p of Inl e \<Rightarrow> Inl e | Inr c \<Rightarrow> resolve c ps)"

text \<open>\<open>k in rpc\<close>\<close>

definition js_in :: "string \<Rightarrow> client \<Rightarrow> js_error + bool" where
  "js_in k rpc = (case props rpc of None \<Rightarrow> Inl TypeError | Some m \<Rightarrow> Inr (m k \<noteq> None))"

section \<open>Effects\<close>

text \<open>
  What the engine does to its collaborators, in order: a call of a transport callable
  (path, method key, input), a prefix invalidation handed to the store, and the call of
  the caller's own \<open>onSuccess\<close>.
\<close>

datatype event =
    TransportCall "string list" string jsval
  | InvalidateQueries "jsval list"
  | CallerOnSuccess jsval jsval jsval

text \<open>\<open>rpc[key](input)\<close>: a call is made only when the value read is a callable.\<close>

definition call_method :: "string list \<Rightarrow> client \<Rightarrow> string \<Rightarrow> jsval \<Rightarrow> event list \<times> (js_error + response)" where
  "call_method path rpc key input =
     (case index rpc key of
        Inl e \<Rightarrow> ([], Inl e)
      | Inr (CFun f m) \<Rightarrow> ([TransportCall path key input], f input)
      | Inr _ \<Rightarrow> ([], Inl TypeError))"

text \<open>
  The handling of the response, written identically in the mutation function and in both
  fetch functions: a response that is not ok is thrown as a \<open>HonoQueryError\<close> whose
  payload is the parsed body, or \<open>{message: res.statusText}\<close> when parsing fails; an ok
  response returns \<open>res.json()\<close>.
\<close>

definition read_response :: "response \<Rightarrow> js_error + jsval" where
  "read_response res =
     (if \<not> ok res then
        (case HonoQueryError res
                (case json res of
                   Some errorData \<Rightarrow> errorData
                 | None \<Rightarrow> JObj [(''message'', JStr (statusText res))]) of
           Inl e \<Rightarrow> Inl e
         | Inr err \<Rightarrow> Inl (RequestError err))
      else (case json res of Some d \<Rightarrow> Inr d | None \<Rightarrow> Inl BodyParseError))"

section \<open>Mutations\<close>

text \<open>\<open>mutationFn\<close> of \<open>createMethodMutation\<close>.\<close>

definition mutationFn :: "client \<Rightarrow> string list \<Rightarrow> string \<Rightarrow> jsval \<Rightarrow> event list \<times> (js_error + jsval)" where
  "mutationFn cl path method variables =
     (case resolve cl path of
        Inl e \<Rightarrow> ([], Inl e)
      | Inr rpc \<Rightarrow>
          (let honoMethod = ''$'' @ toLowerCase method in
           case js_in honoMethod rpc of
             Inl e \<Rightarrow> ([], Inl e)
           | Inr False \<Rightarrow>
               ([], Inl (PlainError
                  (''Method '' @ method @ '' not found for endpoint: '' @ join ''.'' path)))
           | Inr True \<Rightarrow>
               (case call_method path rpc honoMethod variables of
                  (evs, Inl e) \<Rightarrow> (evs, Inl e)
                | (evs, Inr res) \<Rightarrow> (evs, read_response res))))"

text \<open>
  \<open>onSuccess\<close> of \<open>createMethodMutation\<close>; the flag says whether the caller's options
  held an \<open>onSuccess\<close> of their own.
\<close>

definition onSuccess :: "string list \<Rightarrow> bool \<Rightarrow> jsval \<Rightarrow> jsval \<Rightarrow> jsval \<Rightarrow> event list" where
  "onSuccess path caller d variables ctx =
     (let lastSegment = (if length path > 0 then last path else []);
          isResourceMutation = startsWith lastSegment '':'';
          collectionPath = (if isResourceMutation then butlast path else path)
      in [InvalidateQueries (map JStr collectionPath)]
         @ (if isResourceMutation then [InvalidateQueries (map JStr path)] else [])
         @ (if caller then [CallerOnSuccess d variables ctx] else []))"

text \<open>
  The store's mutation primitive, as far as the engine relies on it: it runs the mutation
  function on the variables and, when that succeeds, calls the \<open>onSuccess\<close> it was given
  with the data, the variables and its own context value.
\<close>

definition mutate :: "client \<Rightarrow> string list \<Rightarrow> string \<Rightarrow> bool \<Rightarrow> jsval \<Rightarrow> jsval \<Rightarrow> event list \<times> (js_error + jsval)" where
  "mutate cl path method caller variables ctx =
     (case mutationFn cl path method variables of
        (evs, Inl e) \<Rightarrow> (evs, Inl e)
      | (evs, Inr d) \<Rightarrow> (evs @ onSuccess path caller d variables ctx, Inr d))"

text \<open>The keys of the invalidations in a trace, in order.\<close>

fun invalidated :: "event list \<Rightarrow> jsval list list" where
  "invalidated [] = []"
| "invalidated (InvalidateQueries k # evs) = k # invalidated evs"
| "invalidated (e # evs) = invalidated evs"

section \<open>Queries\<close>

text \<open>\<open>queryKey\<close> and \<open>queryFn\<close> of the \<open>useQuery\<close> hook.\<close>

definition useQuery_queryKey :: "string list \<Rightarrow> jsval \<Rightarrow> jsval list" where
  "useQuery_queryKey path input = map JStr path @ [input]"

definition useQuery_queryFn :: "client \<Rightarrow> string list \<Rightarrow> jsval \<Rightarrow> event list \<times> (js_error + jsval)" where
  "useQuery_queryFn cl path input =
     (case resolve cl path of
        Inl e \<Rightarrow> ([], Inl e)
      | Inr rpc \<Rightarrow>
          (case call_method path rpc ''$get'' input of
             (evs, Inl e) \<Rightarrow> (evs, Inl e)
           | (evs, Inr res) \<Rightarrow> (evs, read_response res)))"

text \<open>\<open>queryKey\<close>, \<open>finalInput\<close> and \<open>queryFn\<close> of the \<open>useInfiniteQuery\<close> hook.\<close>

definition useInfiniteQuery_queryKey :: "string list \<Rightarrow> jsval \<Rightarrow> jsval list" where
  "useInfiniteQuery_queryKey path input = map JStr path @ [input]"

definition finalInput :: "jsval \<Rightarrow> jsval \<Rightarrow> jsval" where
  "finalInput input pageParam =
     JObj (AList.update ''query''
             (JObj (AList.update ''page'' pageParam
                      (spread (nullish (opt_prop input ''query'') (JObj [])))))
             (spread input))"

definition useInfiniteQuery_queryFn :: "client \<Rightarrow> string list \<Rightarrow> jsval \<Rightarrow> jsval \<Rightarrow> event list \<times> (js_error + jsval)" where
  "useInfiniteQuery_queryFn cl path input pageParam =
     (case resolve cl path of
        Inl e \<Rightarrow> ([], Inl e)
      | Inr rpc \<Rightarrow>
          (case call_method path rpc ''$get'' (finalInput input pageParam) of
             (evs, Inl e) \<Rightarrow> (evs, Inl e)
           | (evs, Inr res) \<Rightarrow> (evs, read_response res)))"

text \<open>
  The store's paged-query primitive, as far as the engine relies on it: it calls the fetch
  function for the first page with the initial page parameter of its options (undefined
  when the options give none), and for a further page with what the caller's
  \<open>getNextPageParam\<close> returns for the last page; when that is undefined or null there
  is no further page and nothing is fetched.
\<close>

definition fetchFirstPage :: "client \<Rightarrow> string list \<Rightarrow> jsval \<Rightarrow> jsval \<Rightarrow> event list \<times> (js_error + jsval)" where
  "fetchFirstPage cl path input initialPageParam =
     useInfiniteQuery_queryFn cl path input initialPageParam"

definition fetchNextPage :: "client \<Rightarrow> string list \<Rightarrow> jsval \<Rightarrow> (jsval \<Rightarrow> jsval) \<Rightarrow> jsval \<Rightarrow> (event list \<times> (js_error + jsval)) option" where
  "fetchNextPage cl path input getNextPageParam lastPage =
     (let pageParam = getNextPageParam lastPage in
      if pageParam = JUndefined \<or> pageParam = JNull then None
      else Some (useInfiniteQuery_queryFn cl path input pageParam))"

text \<open>
  Structural equality of values, as the spec uses the term: the same primitive, arrays equal element by element,
  objects with the same property names and structurally equal values under each name, in
  whatever order the properties stand. Two keys are the same when they are equally long
  and their elements are structurally equal.
\<close>

fun structurally_equal :: "jsval \<Rightarrow> jsval \<Rightarrow> bool" where
  "structurally_equal (JArr xs) (JArr ys) = list_all2 structurally_equal xs ys"
| "structurally_equal (JObj a) (JObj b) =
     ((\<forall>(k, v) \<in> set a.
         case map_of b k of None \<Rightarrow> False | Some w \<Rightarrow> structurally_equal v w)
      \<and> (\<forall>k \<in> set (map fst b). map_of a k \<noteq> None))"
| "structurally_equal x y = (x = y)"

definition same_key :: "jsval list \<Rightarrow> jsval list \<Rightarrow> bool" where
  "same_key k1 k2 = list_all2 structurally_equal k1 k2"

section \<open>The proxies\<close>

text \<open>What a property access on the query proxy yields.\<close>

datatype proxy_value =
    Undefined
  | UseQuery "string list"
  | UseInfiniteQuery "string list"
  | MethodHooks "string list" string
  | UseMutation "string list" string
  | HonoQueryProxy "string list"

text \<open>The \<open>get\<close> trap of \<open>proxyHandlers client path\<close>.\<close>

definition proxy_get :: "client \<Rightarrow> string list \<Rightarrow> string \<Rightarrow> js_error + proxy_value" where
  "proxy_get cl path property =
     (if property = ''useQuery'' then Inr (UseQuery path)
      else if property = ''useInfiniteQuery'' then Inr (UseInfiniteQuery path)
      else if property \<in> set [''post'', ''put'', ''patch'', ''delete''] then
        (case resolve cl path of
           Inl e \<Rightarrow> Inl e
         | Inr rpc \<Rightarrow>
             (case js_in (''$'' @ property) rpc of
                Inl e \<Rightarrow> Inl e
              | Inr True \<Rightarrow> Inr (MethodHooks path property)
              | Inr False \<Rightarrow> Inr Undefined))
      else if startsWith property ''$'' then Inr Undefined
      else Inr (HonoQueryProxy (path @ [property])))"

text \<open>
  The \<open>get\<close> trap of the object returned for a method name: \<open>useMutation\<close> is
  \<open>createMethodMutation client path method\<close>, everything else is undefined.
\<close>

definition method_hooks_get :: "string list \<Rightarrow> string \<Rightarrow> string \<Rightarrow> proxy_value" where
  "method_hooks_get path method hookProperty =
     (if hookProperty = ''useMutation'' then UseMutation path method else Undefined)"

text \<open>
  Chained property access from the proxy at a path, followed for as long as each access
  yields a proxy again: the result is the first value that is not a proxy, with the
  names not yet read, or the proxy reached when none are left.
\<close>

fun traverse :: "client \<Rightarrow> string list \<Rightarrow> string list \<Rightarrow> js_error + proxy_value \<times> string list" where
  "traverse cl path [] = Inr (HonoQueryProxy path, [])"
| "traverse cl path (s # ss) =
     (case proxy_get cl path s of
        Inl e \<Rightarrow> Inl e
      | Inr (HonoQueryProxy path') \<Rightarrow> traverse cl path' ss
      | Inr v \<Rightarrow> Inr (v, ss))"




section \<open>Example transports\<close>

text \<open>
  A transport with one endpoint: nested objects along a path, and at the leaf a single
  callable under a method key. These objects have the listed properties and no others,
  as objects created without a prototype have; an object literal has the properties of
  the built-in prototype besides, none of which the examples below read.
\<close>

fun endpoint_client :: "string list \<Rightarrow> string \<Rightarrow> (jsval \<Rightarrow> js_error + response) \<Rightarrow> client" where
  "endpoint_client [] key f = CObj [key \<mapsto> CFun f Map.empty]"
| "endpoint_client (p # ps) key f = CObj [p \<mapsto> endpoint_client ps key f]"

text \<open>A callable that answers 200 with the input echoed as the body.\<close>

definition echo_ok :: "jsval \<Rightarrow> js_error + response" where
  "echo_ok v = Inr \<lparr> ok = True, status = 200, statusText = ''OK'', json = Some v \<rparr>"

text \<open>A callable that answers with a fixed response.\<close>

definition answer :: "response \<Rightarrow> jsval \<Rightarrow> js_error + response" where
  "answer res v = Inr res"

text \<open>The input \<open>{param: {id: "1"}, json: {title: "x"}}\<close>.\<close>

definition patch_input :: jsval where
  "patch_input =
     JObj [(''param'', JObj [(''id'', JStr ''1'')]), (''json'', JObj [(''title'', JStr ''x'')])]"

text \<open>
  Failed responses: one whose body does not parse, one with a parsed error body, one whose
  message is an object with a \<open>toString\<close> property of its own, and one with an empty
  status text, as HTTP/2 responses have.
\<close>

definition unparseable_500 :: response where
  "unparseable_500 =
     \<lparr> ok = False, status = 500, statusText = ''Internal Server Error'', json = None \<rparr>"

definition validation_422 :: response where
  "validation_422 =
     \<lparr> ok = False, status = 422, statusText = ''Unprocessable Entity'',
       json = Some (JObj [(''message'', JStr ''X''), (''errors'', JArr [JStr ''title''])]) \<rparr>"

definition toString_null_400 :: response where
  "toString_null_400 =
     \<lparr> ok = False, status = 400, statusText = ''Bad Request'',
       json = Some (JObj [(''message'', JObj [(''toString'', JNull)])]) \<rparr>"

definition empty_statusText_500 :: response where
  "empty_statusText_500 =
     \<lparr> ok = False, status = 500, statusText = [], json = Some (JObj []) \<rparr>"

text \<open>The input \<open>{param: {id: "7"}, query: {limit: 10}}\<close> of a paged query.\<close>

definition paged_input :: jsval where
  "paged_input =
     JObj [(''param'', JObj [(''id'', JStr ''7'')]),
           (''query'', JObj [(''limit'', JNum ''10'')])]"

text \<open>A page of results that names the next cursor, and the caller's way to read it.\<close>

definition page_one :: jsval where
  "page_one = JObj [(''items'', JArr []), (''nextCursor'', JNum ''2'')]"

definition nextCursor :: "jsval \<Rightarrow> jsval" where
  "nextCursor lastPage = opt_prop lastPage ''nextCursor''"

definition page_one_200 :: response where
  "page_one_200 = \<lparr> ok = True, status = 200, statusText = ''OK'', json = Some page_one \<rparr>"

section \<open>Invalidation after a mutation\<close>

lemma invalidated_append: "invalidated (a @ b) = invalidated a @ invalidated b"
  by (induction a rule: invalidated.induct) auto

lemma call_method_success:
  "call_method path rpc key input = (evs, Inr res) \<Longrightarrow> evs = [TransportCall path key input]"
  by (auto simp: call_method_def split: sum.splits client.splits)

lemma mutationFn_success_events:
  assumes "mutationFn cl path method v = (evs, Inr d)"
  shows "evs = [TransportCall path (''$'' @ toLowerCase method) v]"
proof -
  from assms obtain rpc res where
    "call_method path rpc (''$'' @ toLowerCase method) v = (evs, Inr res)"
    by (auto simp: mutationFn_def Let_def split: sum.splits bool.splits prod.splits)
  then show ?thesis by (rule call_method_success)
qed

lemma onSuccess_invalidated:
  "invalidated (onSuccess path caller d v ctx) =
     (if path \<noteq> [] \<and> startsWith (last path) '':''
      then [map JStr (butlast path), map JStr path] else [map JStr path])"
  by (auto simp: onSuccess_def Let_def startsWith_def)

lemma mutate_success:
  assumes "mutationFn cl path method v = (evs, Inr d)"
  shows "mutate cl path method caller v ctx = (evs @ onSuccess path caller d v ctx, Inr d)"
  using assms by (simp add: mutate_def)

lemma butlast_key_neq: "path \<noteq> [] \<Longrightarrow> map JStr path \<noteq> map JStr (butlast path)"
proof
  assume "path \<noteq> []" and "map JStr path = map JStr (butlast path)"
  then have "length path = length (butlast path)" by (metis length_map)
  with \<open>path \<noteq> []\<close> show False by (cases path rule: rev_cases) auto
qed

text \<open>
  Claim C1. When a mutation's dispatch succeeds, the keys invalidated are determined by the
  shape of the path alone. If the last segment is a resource marker (it begins with a
  colon), exactly two keys are invalidated: the full path and the path without its last
  segment. Otherwise exactly one key is invalidated: the full path. A nested resource
  mutation therefore never invalidates a grandparent key.
\<close>

theorem invalidation_set_by_path_shape:
  assumes "snd (mutationFn cl path method v) = Inr d"
  shows "(path \<noteq> [] \<and> startsWith (last path) '':'' \<longrightarrow>
            set (invalidated (fst (mutate cl path method caller v ctx)))
              = {map JStr path, map JStr (butlast path)}
            \<and> card (set (invalidated (fst (mutate cl path method caller v ctx)))) = 2)
       \<and> (\<not> (path \<noteq> [] \<and> startsWith (last path) '':'') \<longrightarrow>
            set (invalidated (fst (mutate cl path method caller v ctx))) = {map JStr path}
            \<and> card (set (invalidated (fst (mutate cl path method caller v ctx)))) = 1)"
proof -
  obtain evs where m: "mutationFn cl path method v = (evs, Inr d)"
    using assms by (cases "mutationFn cl path method v") auto
  have evs: "invalidated evs = []"
    using mutationFn_success_events [OF m] by simp
  have inv: "invalidated (fst (mutate cl path method caller v ctx))
      = (if path \<noteq> [] \<and> startsWith (last path) '':''
         then [map JStr (butlast path), map JStr path] else [map JStr path])"
    by (simp add: mutate_success [OF m] invalidated_append evs onSuccess_invalidated)
  show ?thesis
  proof (cases "path \<noteq> [] \<and> startsWith (last path) '':''")
    case True
    then have "map JStr path \<noteq> map JStr (butlast path)" by (simp add: butlast_key_neq)
    with True show ?thesis unfolding inv by auto
  next
    case False
    then show ?thesis unfolding inv by auto
  qed
qed

lemma toLowerCase_delete: "toLowerCase ''delete'' = ''delete''"
  by (simp add: toLowerCase_def toLowerChar_def)

lemma toLowerCase_post: "toLowerCase ''post'' = ''post''"
  by (simp add: toLowerCase_def toLowerChar_def)

lemma nested_delete_run:
  "mutationFn (endpoint_client [''users'', '':id'', ''posts'', '':postId''] ''$delete'' echo_ok)
     [''users'', '':id'', ''posts'', '':postId''] ''delete'' v
   = ([TransportCall [''users'', '':id'', ''posts'', '':postId''] ''$delete'' v], Inr v)"
  by (simp add: mutationFn_def js_in_def call_method_def toLowerCase_delete read_response_def
      echo_ok_def)

lemma users_post_run:
  "mutationFn (endpoint_client [''users''] ''$post'' echo_ok) [''users''] ''post'' v
   = ([TransportCall [''users''] ''$post'' v], Inr v)"
  by (simp add: mutationFn_def js_in_def call_method_def toLowerCase_post read_response_def
      echo_ok_def)

text \<open>
  At \<open>users / :id / posts / :postId\<close> the two keys are that path and
  \<open>users / :id / posts\<close>, and \<open>users / :id\<close> is not among them; at \<open>users\<close> the
  only key is \<open>users\<close>.
\<close>

theorem invalidation_set_by_path_shape_witness:
  "set (invalidated (fst (mutate
       (endpoint_client [''users'', '':id'', ''posts'', '':postId''] ''$delete'' echo_ok)
       [''users'', '':id'', ''posts'', '':postId''] ''delete'' True JNull JUndefined)))
     = {[JStr ''users'', JStr '':id'', JStr ''posts'', JStr '':postId''],
        [JStr ''users'', JStr '':id'', JStr ''posts'']}
   \<and> [JStr ''users'', JStr '':id'']
       \<notin> set (invalidated (fst (mutate
       (endpoint_client [''users'', '':id'', ''posts'', '':postId''] ''$delete'' echo_ok)
       [''users'', '':id'', ''posts'', '':postId''] ''delete'' True JNull JUndefined)))
   \<and> set (invalidated (fst (mutate (endpoint_client [''users''] ''$post'' echo_ok)
       [''users''] ''post'' True JNull JUndefined)))
     = {[JStr ''users'']}"
proof -
  have a: "snd (mutationFn
       (endpoint_client [''users'', '':id'', ''posts'', '':postId''] ''$delete'' echo_ok)
       [''users'', '':id'', ''posts'', '':postId''] ''delete'' JNull) = Inr JNull"
    by (simp only: nested_delete_run snd_conv)
  have b: "snd (mutationFn (endpoint_client [''users''] ''$post'' echo_ok)
       [''users''] ''post'' JNull) = Inr JNull"
    by (simp only: users_post_run snd_conv)
  show ?thesis
    using invalidation_set_by_path_shape [OF a, of True JUndefined]
      invalidation_set_by_path_shape [OF b, of True JUndefined]
    by (simp add: startsWith_def)
qed

lemma call_method_events:
  "fst (call_method path rpc key input) = []
   \<or> fst (call_method path rpc key input) = [TransportCall path key input]"
  by (auto simp: call_method_def split: sum.splits client.splits)

lemma mutate_failure:
  assumes "snd (mutationFn cl path method v) = Inl e"
  shows "mutate cl path method caller v ctx = mutationFn cl path method v"
  using assms by (cases "mutationFn cl path method v") (auto simp: mutate_def)

lemma call_method_transport_only:
  "invalidated (fst (call_method path rpc key input)) = []"
  by (auto simp: call_method_def split: sum.splits client.splits)

lemma mutationFn_transport_only: "invalidated (fst (mutationFn cl path method v)) = []"
proof (cases "resolve cl path")
  case (Inl e)
  then show ?thesis by (simp add: mutationFn_def)
next
  case (Inr rpc)
  show ?thesis
  proof (cases "js_in (''$'' @ toLowerCase method) rpc")
    case (Inl e)
    with Inr show ?thesis by (simp add: mutationFn_def)
  next
    case found: (Inr b)
    obtain evs r where c: "call_method path rpc (''$'' @ toLowerCase method) v = (evs, r)"
      by (cases "call_method path rpc (''$'' @ toLowerCase method) v")
    have "invalidated evs = []"
      using call_method_transport_only [of path rpc "''$'' @ toLowerCase method" v] c by simp
    with Inr found c show ?thesis
      by (cases b; cases r) (simp_all add: mutationFn_def)
  qed
qed

lemma onSuccess_trace:
  "onSuccess path True d v ctx =
     map InvalidateQueries
       (if path \<noteq> [] \<and> startsWith (last path) '':''
        then [map JStr (butlast path), map JStr path] else [map JStr path])
     @ [CallerOnSuccess d v ctx]"
  by (auto simp: onSuccess_def Let_def startsWith_def)

text \<open>
  Claim C2, as amended. On every successful dispatch the trace is: the transport call, then
  the invalidations, then the caller's \<open>onSuccess\<close> with the data, the variables and
  the context. The collection key is invalidated first and the resource key second. A
  failed dispatch issues no invalidation and does not call the caller's \<open>onSuccess\<close>.
\<close>

theorem invalidation_between_dispatch_and_onSuccess:
  "(snd (mutationFn cl path meth v) = Inr d \<longrightarrow>
      fst (mutate cl path meth True v ctx) =
        [TransportCall path (''$'' @ toLowerCase meth) v]
        @ map InvalidateQueries
            (if path \<noteq> [] \<and> startsWith (last path) '':''
             then [map JStr (butlast path), map JStr path] else [map JStr path])
        @ [CallerOnSuccess d v ctx])
   \<and> (snd (mutationFn cl path meth v) = Inl e \<longrightarrow>
        invalidated (fst (mutate cl path meth True v ctx)) = []
        \<and> CallerOnSuccess d' v' ctx' \<notin> set (fst (mutate cl path meth True v ctx)))"
proof (intro conjI impI)
  assume s: "snd (mutationFn cl path meth v) = Inr d"
  then obtain evs where m: "mutationFn cl path meth v = (evs, Inr d)"
    by (cases "mutationFn cl path meth v") auto
  show "fst (mutate cl path meth True v ctx) =
        [TransportCall path (''$'' @ toLowerCase meth) v]
        @ map InvalidateQueries
            (if path \<noteq> [] \<and> startsWith (last path) '':''
             then [map JStr (butlast path), map JStr path] else [map JStr path])
        @ [CallerOnSuccess d v ctx]"
    unfolding mutate_success [OF m] fst_conv onSuccess_trace
    using mutationFn_success_events [OF m] by simp
next
  assume f: "snd (mutationFn cl path meth v) = Inl e"
  show "invalidated (fst (mutate cl path meth True v ctx)) = []"
    by (simp only: mutate_failure [OF f] mutationFn_transport_only)
next
  assume f: "snd (mutationFn cl path meth v) = Inl e"
  have "fst (mutationFn cl path meth v) = []
      \<or> fst (mutationFn cl path meth v) = [TransportCall path (''$'' @ toLowerCase meth) v]"
  proof (cases "resolve cl path")
    case (Inl e)
    then show ?thesis by (simp add: mutationFn_def)
  next
    case (Inr rpc)
    show ?thesis
    proof (cases "js_in (''$'' @ toLowerCase meth) rpc")
      case (Inl e)
      with Inr show ?thesis by (simp add: mutationFn_def)
    next
      case found: (Inr b)
      obtain evs r where c: "call_method path rpc (''$'' @ toLowerCase meth) v = (evs, r)"
        by (cases "call_method path rpc (''$'' @ toLowerCase meth) v")
      have "evs = [] \<or> evs = [TransportCall path (''$'' @ toLowerCase meth) v]"
        using call_method_events [of path rpc "''$'' @ toLowerCase meth" v] c by simp
      with Inr found c show ?thesis
        by (cases b; cases r) (auto simp add: mutationFn_def)
    qed
  qed
  then show "CallerOnSuccess d' v' ctx' \<notin> set (fst (mutate cl path meth True v ctx))"
    unfolding mutate_failure [OF f] by auto
qed

lemma toLowerCase_patch: "toLowerCase ''patch'' = ''patch''"
  by (simp add: toLowerCase_def toLowerChar_def)

lemma posts_patch_run:
  "mutationFn (endpoint_client [''posts'', '':id''] ''$patch'' echo_ok) [''posts'', '':id''] ''patch'' v
   = ([TransportCall [''posts'', '':id''] ''$patch'' v], Inr v)"
  by (simp add: mutationFn_def js_in_def call_method_def toLowerCase_patch read_response_def
      echo_ok_def)

lemma posts_put_run:
  "mutationFn (endpoint_client [''posts'', '':id''] ''$patch'' echo_ok) [''posts'', '':id''] ''put'' v
   = ([], Inl (PlainError ''Method put not found for endpoint: posts.:id''))"
  by (simp add: mutationFn_def js_in_def toLowerCase_def toLowerChar_def)

text \<open>
  Claim C2, as stated, fails: for \<open>patch\<close> at \<open>posts / :id\<close> the store receives the
  invalidation of \<open>posts\<close> first and that of \<open>posts / :id\<close> second, not the other way
  round.
\<close>

theorem resource_key_first_counterexample:
  "invalidated (fst (mutate (endpoint_client [''posts'', '':id''] ''$patch'' echo_ok)
       [''posts'', '':id''] ''patch'' True patch_input JUndefined))
     = [[JStr ''posts''], [JStr ''posts'', JStr '':id'']]
   \<and> invalidated (fst (mutate (endpoint_client [''posts'', '':id''] ''$patch'' echo_ok)
       [''posts'', '':id''] ''patch'' True patch_input JUndefined))
     \<noteq> [[JStr ''posts'', JStr '':id''], [JStr ''posts'']]"
  unfolding mutate_def posts_patch_run by (simp add: onSuccess_def startsWith_def)

theorem invalidation_between_dispatch_and_onSuccess_witness:
  "fst (mutate (endpoint_client [''posts'', '':id''] ''$patch'' echo_ok)
       [''posts'', '':id''] ''patch'' True patch_input JUndefined)
     = [TransportCall [''posts'', '':id''] ''$patch'' patch_input,
        InvalidateQueries [JStr ''posts''],
        InvalidateQueries [JStr ''posts'', JStr '':id''],
        CallerOnSuccess patch_input patch_input JUndefined]
   \<and> invalidated (fst (mutate (endpoint_client [''posts'', '':id''] ''$patch'' echo_ok)
       [''posts'', '':id''] ''put'' True patch_input JUndefined)) = []"
proof -
  have a: "snd (mutationFn (endpoint_client [''posts'', '':id''] ''$patch'' echo_ok)
       [''posts'', '':id''] ''patch'' patch_input) = Inr patch_input"
    by (simp only: posts_patch_run snd_conv)
  have b: "snd (mutationFn (endpoint_client [''posts'', '':id''] ''$patch'' echo_ok)
       [''posts'', '':id''] ''put'' patch_input)
       = Inl (PlainError ''Method put not found for endpoint: posts.:id'')"
    by (simp only: posts_put_run snd_conv)
  show ?thesis
    using invalidation_between_dispatch_and_onSuccess
        [where cl = "endpoint_client [''posts'', '':id''] ''$patch'' echo_ok"
           and path = "[''posts'', '':id'']" and meth = "''patch''" and v = patch_input
           and d = patch_input and ctx = JUndefined] a
      invalidation_between_dispatch_and_onSuccess
        [where cl = "endpoint_client [''posts'', '':id''] ''$patch'' echo_ok"
           and path = "[''posts'', '':id'']" and meth = "''put''" and v = patch_input
           and e = "PlainError ''Method put not found for endpoint: posts.:id''"
           and ctx = JUndefined] b
    by (simp add: startsWith_def toLowerCase_patch)
qed

section \<open>Responses that are not ok\<close>

lemma call_method_found:
  assumes "props rpc = Some m" and "call_method path rpc key input = (evs, Inr res)"
  shows "js_in key rpc = Inr True"
  using assms
  by (cases rpc) (auto simp: call_method_def js_in_def split: option.splits client.splits)

lemma mutationFn_read:
  assumes "resolve cl path = Inr rpc" and "props rpc = Some m"
    and "call_method path rpc (''$'' @ toLowerCase method) v = (evs, Inr res)"
  shows "mutationFn cl path method v = (evs, read_response res)"
  using assms call_method_found [OF assms(2,3)] by (simp add: mutationFn_def)

lemma useQuery_read:
  assumes "resolve cl path = Inr rpc"
    and "call_method path rpc ''$get'' input = (evs, Inr res)"
  shows "useQuery_queryFn cl path input = (evs, read_response res)"
  using assms by (simp add: useQuery_queryFn_def)

lemma useInfiniteQuery_read:
  assumes "resolve cl path = Inr rpc"
    and "call_method path rpc ''$get'' (finalInput input pageParam) = (evs, Inr res)"
  shows "useInfiniteQuery_queryFn cl path input pageParam = (evs, read_response res)"
  using assms by (simp add: useInfiniteQuery_queryFn_def)

text \<open>
  When the error can be constructed, a response that is not ok is thrown as that error:
  it carries the response, and its payload is the parsed body, or \<open>{message: statusText}\<close>
  when the body does not parse.
\<close>

lemma read_response_not_ok:
  assumes "\<not> ok res"
    and "HonoQueryError res
           (case json res of
              Some body \<Rightarrow> body
            | None \<Rightarrow> JObj [(''message'', JStr (statusText res))]) = Inr err"
  shows "read_response res = Inl (RequestError err)"
    and "response err = res"
    and "data err = (case json res of
                       Some body \<Rightarrow> body
                     | None \<Rightarrow> JObj [(''message'', JStr (statusText res))])"
  using assms by (auto simp: read_response_def HonoQueryError_def split: sum.splits)

lemma not_ok_response_thrown:
  assumes "resolve cl path = Inr rpc" and "\<not> ok res"
    and "HonoQueryError res
           (case json res of
              Some body \<Rightarrow> body
            | None \<Rightarrow> JObj [(''message'', JStr (statusText res))]) = Inr err"
  shows "props rpc = Some m
         \<Longrightarrow> call_method path rpc (''$'' @ toLowerCase method) v = (evs, Inr res)
         \<Longrightarrow> snd (mutationFn cl path method v) = Inl (RequestError err)"
    and "call_method path rpc ''$get'' input = (evs, Inr res)
         \<Longrightarrow> snd (useQuery_queryFn cl path input) = Inl (RequestError err)"
    and "call_method path rpc ''$get'' (finalInput input pageParam) = (evs, Inr res)
         \<Longrightarrow> snd (useInfiniteQuery_queryFn cl path input pageParam) = Inl (RequestError err)"
  using assms
  by (simp_all add: mutationFn_read useQuery_read useInfiniteQuery_read read_response_not_ok(1))

text \<open>The error can be constructed whenever the body does not parse.\<close>

lemma read_response_unparseable:
  assumes "\<not> ok res" and "json res = None"
  shows "read_response res =
     Inl (RequestError \<lparr> name = ''HonoQueryError'', message = statusText res, response = res,
                          data = JObj [(''message'', JStr (statusText res))] \<rparr>)"
  using assms by (simp add: read_response_def HonoQueryError_def Error_message_def js_or_def)

text \<open>
  Claim C3 fails on the code where the message of the parsed body has no string
  conversion: for the body \<open>{message: {toString: null}}\<close> the constructor of the error
  throws, and the mutation function and both fetch functions fail with a \<open>TypeError\<close>
  in place of the \<open>HonoQueryError\<close>. A body with a string message on the same endpoints
  gives the \<open>HonoQueryError\<close> with the parsed body as its payload.
\<close>

theorem unconvertible_message_raises_TypeError:
  "mutationFn (endpoint_client [''posts''] ''$post'' (answer toString_null_400))
       [''posts''] ''post'' JNull
     = ([TransportCall [''posts''] ''$post'' JNull], Inl TypeError)
   \<and> useQuery_queryFn (endpoint_client [''posts''] ''$get'' (answer toString_null_400))
       [''posts''] JNull
     = ([TransportCall [''posts''] ''$get'' JNull], Inl TypeError)
   \<and> snd (useInfiniteQuery_queryFn (endpoint_client [''posts''] ''$get'' (answer toString_null_400))
       [''posts''] JNull JUndefined)
     = Inl TypeError
   \<and> snd (mutationFn (endpoint_client [''posts''] ''$post'' (answer validation_422))
       [''posts''] ''post'' JNull)
     = Inl (RequestError
         \<lparr> name = ''HonoQueryError'', message = ''X'', response = validation_422,
           data = JObj [(''message'', JStr ''X''), (''errors'', JArr [JStr ''title''])] \<rparr>)"
  by (simp add: mutationFn_def useQuery_queryFn_def useInfiniteQuery_queryFn_def js_in_def
      call_method_def toLowerCase_post read_response_def HonoQueryError_def Error_message_def
      js_or_def answer_def toString_null_400_def validation_422_def)

section \<open>Which hooks an endpoint exposes\<close>

lemma toLowerCase_method:
  "m \<in> set [''post'', ''put'', ''patch'', ''delete''] \<Longrightarrow> toLowerCase m = m"
  by (auto simp: toLowerCase_def toLowerChar_def)

lemma mutation_method_gated:
  assumes "m \<in> set [''post'', ''put'', ''patch'', ''delete'']"
    and "resolve cl path = Inr rpc" and "js_in (''$'' @ m) rpc = Inr False"
  shows "proxy_get cl path m = Inr Undefined"
    and "mutationFn cl path m v =
      ([], Inl (PlainError (''Method '' @ m @ '' not found for endpoint: '' @ join ''.'' path)))"
proof -
  from assms(1) have "m \<noteq> ''useQuery''" and "m \<noteq> ''useInfiniteQuery''" by auto
  with assms show "proxy_get cl path m = Inr Undefined"
    by (simp add: proxy_get_def)
  from assms show "mutationFn cl path m v =
      ([], Inl (PlainError (''Method '' @ m @ '' not found for endpoint: '' @ join ''.'' path)))"
    by (simp add: mutationFn_def toLowerCase_method del: set_simps)
qed

text \<open>
  Claim C4 holds for the four mutating methods (the lemma above) and fails for \<open>get\<close>:
  on an endpoint that has \<open>$post\<close> only, \<open>useQuery\<close> is still handed out, and its fetch
  function fails with the runtime's \<open>TypeError\<close>, which names neither the method nor the
  path. On the same endpoint \<open>delete\<close> is not handed out, and the mutation function fails
  with the descriptive error. Neither attempts a transport call.
\<close>

theorem useQuery_exposed_without_get:
  "proxy_get (endpoint_client [''users''] ''$post'' echo_ok) [''users''] ''useQuery''
     = Inr (UseQuery [''users''])
   \<and> useQuery_queryFn (endpoint_client [''users''] ''$post'' echo_ok) [''users''] JUndefined
     = ([], Inl TypeError)
   \<and> proxy_get (endpoint_client [''users''] ''$post'' echo_ok) [''users''] ''delete''
     = Inr Undefined
   \<and> mutationFn (endpoint_client [''users''] ''$post'' echo_ok) [''users''] ''delete'' JUndefined
     = ([], Inl (PlainError ''Method delete not found for endpoint: users''))"
  by (simp add: proxy_get_def useQuery_queryFn_def mutationFn_def js_in_def call_method_def
      toLowerCase_def toLowerChar_def)

section \<open>Cache keys\<close>

lemma same_key_path: "same_key (map JStr p) (map JStr p)"
  unfolding same_key_def by (induction p) simp_all

lemma same_key_snoc:
  assumes "structurally_equal i1 i2"
  shows "same_key (map JStr p @ [i1]) (map JStr p @ [i2])"
  using assms same_key_path [of p] unfolding same_key_def
  by (intro list_all2_appendI) simp_all

lemma same_key_length: "same_key k1 k2 \<Longrightarrow> length k1 = length k2"
  unfolding same_key_def by (rule list_all2_lengthD)

text \<open>
  Claim C5. The cache key of a single query is the path's segments followed by the input
  as the last element; with an undefined input the last element is undefined, and the key
  is still not the key of the bare path. A paged query has the same key, one element
  longer than the path, with no cursor in it. For structurally equal inputs, in whatever
  order their properties stand, the keys for the same path are equal as the store
  compares them.
\<close>

theorem query_key_is_path_then_input:
  "useQuery_queryKey path input = map JStr path @ [input]
   \<and> useQuery_queryKey path JUndefined = map JStr path @ [JUndefined]
   \<and> \<not> same_key (useQuery_queryKey path JUndefined) (map JStr path)
   \<and> useInfiniteQuery_queryKey path input = map JStr path @ [input]
   \<and> length (useInfiniteQuery_queryKey path input) = Suc (length path)
   \<and> (structurally_equal i1 i2 \<longrightarrow>
        same_key (useQuery_queryKey path i1) (useQuery_queryKey path i2)
        \<and> same_key (useInfiniteQuery_queryKey path i1) (useInfiniteQuery_queryKey path i2))"
proof (intro conjI impI)
  show "\<not> same_key (useQuery_queryKey path JUndefined) (map JStr path)"
    using same_key_length [of "useQuery_queryKey path JUndefined" "map JStr path"]
    by (auto simp: useQuery_queryKey_def)
next
  assume "structurally_equal i1 i2"
  then show "same_key (useQuery_queryKey path i1) (useQuery_queryKey path i2)"
    unfolding useQuery_queryKey_def by (rule same_key_snoc)
next
  assume "structurally_equal i1 i2"
  then show "same_key (useInfiniteQuery_queryKey path i1) (useInfiniteQuery_queryKey path i2)"
    unfolding useInfiniteQuery_queryKey_def by (rule same_key_snoc)
qed (simp_all add: useQuery_queryKey_def useInfiniteQuery_queryKey_def)

text \<open>
  The inputs \<open>{query: {limit: 10, sort: "asc"}}\<close> and \<open>{query: {sort: "asc", limit: 10}}\<close>
  at \<open>posts\<close> give the same key.
\<close>

theorem query_key_is_path_then_input_witness:
  "same_key
     (useQuery_queryKey [''posts'']
        (JObj [(''query'', JObj [(''limit'', JNum ''10''), (''sort'', JStr ''asc'')])]))
     (useQuery_queryKey [''posts'']
        (JObj [(''query'', JObj [(''sort'', JStr ''asc''), (''limit'', JNum ''10'')])]))
   \<and> useQuery_queryKey [''posts''] JUndefined = [JStr ''posts'', JUndefined]
   \<and> useInfiniteQuery_queryKey [''posts''] (JObj [(''query'', JObj [(''limit'', JNum ''10'')])])
     = [JStr ''posts'', JObj [(''query'', JObj [(''limit'', JNum ''10'')])]]"
proof -
  have e: "structurally_equal
      (JObj [(''query'', JObj [(''limit'', JNum ''10''), (''sort'', JStr ''asc'')])])
      (JObj [(''query'', JObj [(''sort'', JStr ''asc''), (''limit'', JNum ''10'')])])"
    by simp
  show ?thesis
    using query_key_is_path_then_input
      [where path = "[''posts'']"
         and ?i1.0 = "JObj [(''query'', JObj [(''limit'', JNum ''10''), (''sort'', JStr ''asc'')])]"
         and ?i2.0 = "JObj [(''query'', JObj [(''sort'', JStr ''asc''), (''limit'', JNum ''10'')])]"
         and input = "JObj [(''query'', JObj [(''limit'', JNum ''10'')])]"] e
    by simp
qed

section \<open>Page cursors\<close>

lemma finalInput_query:
  "opt_prop (finalInput input c) ''query''
     = JObj (AList.update ''page'' c (spread (nullish (opt_prop input ''query'') (JObj []))))"
  by (simp add: finalInput_def update_conv')

lemma useInfiniteQuery_call:
  assumes "resolve cl path = Inr rpc" and "index rpc ''$get'' = Inr (CFun f m)"
  shows "fst (useInfiniteQuery_queryFn cl path input c)
     = [TransportCall path ''$get'' (finalInput input c)]"
  using assms
  by (cases "f (finalInput input c)") (simp_all add: useInfiniteQuery_queryFn_def call_method_def)

text \<open>
  Claim C6, as amended. Every page fetch dispatches the input with the page parameter the
  store supplied written into the query parameters under \<open>page\<close>: the other fields of
  the input and the other query parameters are unchanged. For \<open>query = {limit: 10}\<close> and
  cursor \<open>c\<close> the dispatched query parameters are \<open>{limit: 10, page: c}\<close>. The first
  page is no exception: it is fetched with the store's initial page parameter under
  \<open>page\<close>. A further page is fetched with what \<open>getNextPageParam\<close> returned for the
  page before it.
\<close>

theorem page_cursor_merged_into_query:
  "(resolve cl path = Inr rpc \<and> index rpc ''$get'' = Inr (CFun f m) \<longrightarrow>
      fst (useInfiniteQuery_queryFn cl path input c)
        = [TransportCall path ''$get'' (finalInput input c)]
      \<and> fst (fetchFirstPage cl path input initialPageParam)
        = [TransportCall path ''$get'' (finalInput input initialPageParam)]
      \<and> (getNextPageParam lastPage \<noteq> JUndefined \<and> getNextPageParam lastPage \<noteq> JNull \<longrightarrow>
           map_option fst (fetchNextPage cl path input getNextPageParam lastPage)
             = Some [TransportCall path ''$get''
                       (finalInput input (getNextPageParam lastPage))]))
   \<and> (k \<noteq> ''query'' \<longrightarrow>
        map_of (spread (finalInput input c)) k = map_of (spread input) k)
   \<and> opt_prop (opt_prop (finalInput input c) ''query'') ''page'' = c
   \<and> (k \<noteq> ''page'' \<longrightarrow>
        map_of (spread (opt_prop (finalInput input c) ''query'')) k
          = map_of (spread (nullish (opt_prop input ''query'') (JObj []))) k)
   \<and> finalInput (JObj [(''query'', JObj [(''limit'', JNum ''10'')])]) c
        = JObj [(''query'', JObj [(''limit'', JNum ''10''), (''page'', c)])]"
proof (intro conjI impI)
  assume a: "resolve cl path = Inr rpc \<and> index rpc ''$get'' = Inr (CFun f m)"
  then show "fst (useInfiniteQuery_queryFn cl path input c)
        = [TransportCall path ''$get'' (finalInput input c)]"
    by (simp add: useInfiniteQuery_call)
  from a show "fst (fetchFirstPage cl path input initialPageParam)
        = [TransportCall path ''$get'' (finalInput input initialPageParam)]"
    by (simp add: fetchFirstPage_def useInfiniteQuery_call)
  assume "getNextPageParam lastPage \<noteq> JUndefined \<and> getNextPageParam lastPage \<noteq> JNull"
  with a show "map_option fst (fetchNextPage cl path input getNextPageParam lastPage)
             = Some [TransportCall path ''$get''
                       (finalInput input (getNextPageParam lastPage))]"
    by (simp add: fetchNextPage_def useInfiniteQuery_call)
next
  assume "k \<noteq> ''query''"
  then show "map_of (spread (finalInput input c)) k = map_of (spread input) k"
    by (simp add: finalInput_def update_conv')
next
  show "opt_prop (opt_prop (finalInput input c) ''query'') ''page'' = c"
    by (simp add: finalInput_query update_conv')
next
  assume "k \<noteq> ''page''"
  then show "map_of (spread (opt_prop (finalInput input c) ''query'')) k
          = map_of (spread (nullish (opt_prop input ''query'') (JObj []))) k"
    by (simp add: finalInput_query update_conv')
next
  show "finalInput (JObj [(''query'', JObj [(''limit'', JNum ''10'')])]) c
        = JObj [(''query'', JObj [(''limit'', JNum ''10''), (''page'', c)])]"
    by (simp add: finalInput_def nullish_def)
qed

text \<open>
  Claim C6, as stated, fails: under an initial page parameter of 2 the first page is
  fetched with \<open>page: 2\<close>, and without one it is still fetched with a \<open>page\<close> entry
  in the query parameters, holding undefined.
\<close>

theorem first_page_with_cursor_counterexample:
  "fst (fetchFirstPage (endpoint_client [''posts''] ''$get'' echo_ok) [''posts'']
          (JObj [(''query'', JObj [(''limit'', JNum ''10'')])]) (JNum ''2''))
     = [TransportCall [''posts''] ''$get''
          (JObj [(''query'', JObj [(''limit'', JNum ''10''), (''page'', JNum ''2'')])])]
   \<and> fst (fetchFirstPage (endpoint_client [''posts''] ''$get'' echo_ok) [''posts'']
          (JObj [(''query'', JObj [(''limit'', JNum ''10'')])]) JUndefined)
     = [TransportCall [''posts''] ''$get''
          (JObj [(''query'', JObj [(''limit'', JNum ''10''), (''page'', JUndefined)])])]"
  by (simp add: fetchFirstPage_def useInfiniteQuery_queryFn_def call_method_def finalInput_def
      nullish_def echo_ok_def read_response_def)

text \<open>
  For \<open>{param: {id: "7"}, query: {limit: 10}}\<close> at \<open>posts\<close>: the first page, fetched
  without an initial page parameter, returns a page that names the cursor 2, and the
  second page is dispatched with \<open>{limit: 10, page: 2}\<close> and the same \<open>param\<close>.
\<close>

theorem page_cursor_merged_into_query_witness:
  "fst (fetchFirstPage (endpoint_client [''posts''] ''$get'' (answer page_one_200)) [''posts'']
          paged_input JUndefined)
     = [TransportCall [''posts''] ''$get''
          (JObj [(''param'', JObj [(''id'', JStr ''7'')]),
                 (''query'', JObj [(''limit'', JNum ''10''), (''page'', JUndefined)])])]
   \<and> map_option fst
        (fetchNextPage (endpoint_client [''posts''] ''$get'' (answer page_one_200)) [''posts'']
           paged_input nextCursor page_one)
     = Some [TransportCall [''posts''] ''$get''
          (JObj [(''param'', JObj [(''id'', JStr ''7'')]),
                 (''query'', JObj [(''limit'', JNum ''10''), (''page'', JNum ''2'')])])]
   \<and> map_of (spread (finalInput paged_input (JNum ''2''))) ''param''
       = Some (JObj [(''id'', JStr ''7'')])
   \<and> map_of (spread (opt_prop (finalInput paged_input (JNum ''2'')) ''query'')) ''limit''
       = Some (JNum ''10'')"
proof -
  let ?cl = "endpoint_client [''posts''] ''$get'' (answer page_one_200)"
  have r: "resolve ?cl [''posts''] = Inr (CObj [''$get'' \<mapsto> CFun (answer page_one_200) Map.empty])"
    by simp
  have i: "index (CObj [''$get'' \<mapsto> CFun (answer page_one_200) Map.empty]) ''$get''
      = Inr (CFun (answer page_one_200) Map.empty)"
    by simp
  have n: "nextCursor page_one = JNum ''2''"
    by (simp add: nextCursor_def page_one_def)
  have f2: "finalInput paged_input (JNum ''2'')
      = JObj [(''param'', JObj [(''id'', JStr ''7'')]),
              (''query'', JObj [(''limit'', JNum ''10''), (''page'', JNum ''2'')])]"
    and f0: "finalInput paged_input JUndefined
      = JObj [(''param'', JObj [(''id'', JStr ''7'')]),
              (''query'', JObj [(''limit'', JNum ''10''), (''page'', JUndefined)])]"
    by (simp_all add: finalInput_def paged_input_def nullish_def)
  note t = page_cursor_merged_into_query
        [where cl = ?cl and path = "[''posts'']"
           and rpc = "CObj [''$get'' \<mapsto> CFun (answer page_one_200) Map.empty]"
           and f = "answer page_one_200" and m = Map.empty
           and input = paged_input and initialPageParam = JUndefined
           and getNextPageParam = nextCursor and lastPage = page_one
           and c = "JNum ''2''" and k = "''param''"]
  note u = page_cursor_merged_into_query
        [where input = paged_input and c = "JNum ''2''" and k = "''limit''"]
  have nn: "nextCursor page_one \<noteq> JUndefined \<and> nextCursor page_one \<noteq> JNull"
    by (simp add: n)
  from t r i have a: "fst (fetchFirstPage ?cl [''posts''] paged_input JUndefined)
      = [TransportCall [''posts''] ''$get'' (finalInput paged_input JUndefined)]"
    by blast
  from t r i nn have b: "map_option fst (fetchNextPage ?cl [''posts''] paged_input nextCursor page_one)
      = Some [TransportCall [''posts''] ''$get'' (finalInput paged_input (nextCursor page_one))]"
    by blast
  from t have "map_of (spread (finalInput paged_input (JNum ''2''))) ''param''
      = map_of (spread paged_input) ''param''"
    by simp
  then have c: "map_of (spread (finalInput paged_input (JNum ''2''))) ''param''
      = Some (JObj [(''id'', JStr ''7'')])"
    by (simp add: paged_input_def)
  from u have "map_of (spread (opt_prop (finalInput paged_input (JNum ''2'')) ''query'')) ''limit''
      = map_of (spread (nullish (opt_prop paged_input ''query'') (JObj []))) ''limit''"
    by simp
  then have d: "map_of (spread (opt_prop (finalInput paged_input (JNum ''2'')) ''query'')) ''limit''
      = Some (JNum ''10'')"
    by (simp add: paged_input_def nullish_def)
  from a [unfolded f0] b [unfolded n f2] c d show ?thesis
    by blast
qed

section \<open>Traversal of the proxy\<close>

lemma index_error: "index c p = Inl e \<Longrightarrow> e = TypeError"
  by (cases c) auto

lemma resolve_error: "resolve cl path = Inl e \<Longrightarrow> e = TypeError"
proof (induction path arbitrary: cl)
  case Nil
  then show ?case by simp
next
  case (Cons p ps)
  then show ?case by (auto split: sum.splits dest: index_error)
qed

lemma proxy_get_plain:
  assumes "s \<notin> set [''useQuery'', ''useInfiniteQuery'', ''post'', ''put'', ''patch'', ''delete'']"
    and "\<not> startsWith s ''$''"
  shows "proxy_get cl path s = Inr (HonoQueryProxy (path @ [s]))"
  using assms by (simp add: proxy_get_def)

lemma proxy_get_sigil:
  assumes "startsWith property ''$''"
  shows "proxy_get cl path property = Inr Undefined"
proof -
  from assms obtain rest where p: "property = CHR ''$'' # rest"
    by (cases property) (auto simp: startsWith_def)
  show ?thesis unfolding p by (simp add: proxy_get_def startsWith_def)
qed

lemma proxy_get_method:
  assumes "property \<in> set [''post'', ''put'', ''patch'', ''delete'']"
  shows "proxy_get cl path property =
     (case resolve cl path of
        Inl e \<Rightarrow> Inl e
      | Inr rpc \<Rightarrow>
          (case js_in (''$'' @ property) rpc of
             Inl e \<Rightarrow> Inl e
           | Inr True \<Rightarrow> Inr (MethodHooks path property)
           | Inr False \<Rightarrow> Inr Undefined))"
proof -
  from assms have "property \<noteq> ''useQuery''" and "property \<noteq> ''useInfiniteQuery''" by auto
  with assms show ?thesis by (simp add: proxy_get_def del: set_simps)
qed

lemma proxy_get_extends:
  assumes "proxy_get cl path s = Inr (HonoQueryProxy p)"
  shows "p = path @ [s]
    \<and> s \<notin> set [''useQuery'', ''useInfiniteQuery'', ''post'', ''put'', ''patch'', ''delete'']
    \<and> \<not> startsWith s ''$''"
proof -
  have a: "s \<noteq> ''useQuery''" and b: "s \<noteq> ''useInfiniteQuery''"
    using assms by (auto simp: proxy_get_def)
  have c: "s \<notin> set [''post'', ''put'', ''patch'', ''delete'']"
  proof
    assume "s \<in> set [''post'', ''put'', ''patch'', ''delete'']"
    from assms [unfolded proxy_get_method [OF this]] show False
      by (simp split: sum.splits bool.splits)
  qed
  have d: "\<not> startsWith s ''$''"
    using assms proxy_get_sigil [of s cl path] by auto
  from a b c d assms have "p = path @ [s]"
    by (simp add: proxy_get_def del: set_simps)
  with a b c d show ?thesis by simp
qed

lemma traverse_plain:
  "(\<And>s. s \<in> set segs \<Longrightarrow>
      s \<notin> set [''useQuery'', ''useInfiniteQuery'', ''post'', ''put'', ''patch'', ''delete'']
      \<and> \<not> startsWith s ''$'')
   \<Longrightarrow> traverse cl path segs = Inr (HonoQueryProxy (path @ segs), [])"
proof (induction segs arbitrary: path)
  case Nil
  then show ?case by simp
next
  case (Cons s segs)
  have "proxy_get cl path s = Inr (HonoQueryProxy (path @ [s]))"
    using Cons.prems [of s] by (intro proxy_get_plain) simp_all
  moreover have "traverse cl (path @ [s]) segs = Inr (HonoQueryProxy ((path @ [s]) @ segs), [])"
    using Cons.prems by (intro Cons.IH) simp
  ultimately show ?case by simp
qed

lemma traverse_reaches:
  "traverse cl path segs = Inr (HonoQueryProxy q, rest) \<Longrightarrow>
   rest = [] \<and> q = path @ segs
   \<and> (\<forall>s \<in> set segs.
        s \<notin> set [''useQuery'', ''useInfiniteQuery'', ''post'', ''put'', ''patch'', ''delete'']
        \<and> \<not> startsWith s ''$'')"
proof (induction segs arbitrary: path)
  case Nil
  then show ?case by simp
next
  case (Cons s segs)
  from Cons.prems obtain v where g: "proxy_get cl path s = Inr v"
    by (auto split: sum.splits)
  show ?case
  proof (cases v)
    case (HonoQueryProxy p)
    with g Cons.prems have t: "traverse cl p segs = Inr (HonoQueryProxy q, rest)" by simp
    from proxy_get_extends [OF g [unfolded HonoQueryProxy]] Cons.IH [OF t]
    show ?thesis by simp
  qed (use g Cons.prems in simp_all)
qed

text \<open>
  Claim C7, as amended. A property whose name begins with \<open>$\<close> is undefined. The names
  \<open>useQuery\<close> and \<open>useInfiniteQuery\<close> give a hook bound to the path. A mutating method
  name gives the method's hook object, whose \<open>useMutation\<close> is the bound mutation hook
  and whose other properties are undefined, when the path resolves to an object that has
  the method's key; it gives undefined when the path resolves to an object without the
  key; and reading it throws a \<open>TypeError\<close> when the path does not resolve to an
  object. No reserved name is ever appended to the path. Every other name gives a proxy
  at the path extended by that name, so repeating the same accesses reaches the same
  path, and every path reached by traversal is free of reserved and \<open>$\<close> names.
\<close>

theorem proxy_get_by_property_name:
  "(startsWith property ''$'' \<longrightarrow> proxy_get cl path property = Inr Undefined)
   \<and> proxy_get cl path ''useQuery'' = Inr (UseQuery path)
   \<and> proxy_get cl path ''useInfiniteQuery'' = Inr (UseInfiniteQuery path)
   \<and> (property \<in> set [''post'', ''put'', ''patch'', ''delete''] \<longrightarrow>
        (resolve cl path = Inr rpc \<and> props rpc = Some m \<and> m (''$'' @ property) \<noteq> None \<longrightarrow>
           proxy_get cl path property = Inr (MethodHooks path property))
        \<and> (resolve cl path = Inr rpc \<and> props rpc = Some m \<and> m (''$'' @ property) = None \<longrightarrow>
           proxy_get cl path property = Inr Undefined)
        \<and> (resolve cl path = Inl e \<or> (resolve cl path = Inr rpc \<and> props rpc = None) \<longrightarrow>
           proxy_get cl path property = Inl TypeError)
        \<and> method_hooks_get path property ''useMutation'' = UseMutation path property
        \<and> (hookProperty \<noteq> ''useMutation'' \<longrightarrow>
             method_hooks_get path property hookProperty = Undefined))
   \<and> (property \<in> set [''useQuery'', ''useInfiniteQuery'', ''post'', ''put'', ''patch'', ''delete'']
        \<longrightarrow> proxy_get cl path property \<noteq> Inr (HonoQueryProxy q))
   \<and> (property \<notin> set [''useQuery'', ''useInfiniteQuery'', ''post'', ''put'', ''patch'', ''delete'']
        \<and> \<not> startsWith property ''$'' \<longrightarrow>
        proxy_get cl path property = Inr (HonoQueryProxy (path @ [property])))
   \<and> ((\<forall>s \<in> set segs.
          s \<notin> set [''useQuery'', ''useInfiniteQuery'', ''post'', ''put'', ''patch'', ''delete'']
          \<and> \<not> startsWith s ''$'') \<longrightarrow>
        traverse cl path segs = Inr (HonoQueryProxy (path @ segs), []))
   \<and> (traverse cl [] segs = Inr (HonoQueryProxy q, rest) \<longrightarrow>
        rest = [] \<and> q = segs
        \<and> (\<forall>s \<in> set q.
             s \<notin> set [''useQuery'', ''useInfiniteQuery'', ''post'', ''put'', ''patch'', ''delete'']
             \<and> \<not> startsWith s ''$''))"
proof (intro conjI impI)
  assume "startsWith property ''$''"
  then show "proxy_get cl path property = Inr Undefined"
    by (rule proxy_get_sigil)
next
  show "proxy_get cl path ''useQuery'' = Inr (UseQuery path)"
    by (simp add: proxy_get_def)
next
  show "proxy_get cl path ''useInfiniteQuery'' = Inr (UseInfiniteQuery path)"
    by (simp add: proxy_get_def)
next
  assume p: "property \<in> set [''post'', ''put'', ''patch'', ''delete'']"
    and "resolve cl path = Inr rpc \<and> props rpc = Some m \<and> m (''$'' @ property) \<noteq> None"
  then show "proxy_get cl path property = Inr (MethodHooks path property)"
    unfolding proxy_get_method [OF p] by (simp add: js_in_def)
next
  assume p: "property \<in> set [''post'', ''put'', ''patch'', ''delete'']"
    and "resolve cl path = Inr rpc \<and> props rpc = Some m \<and> m (''$'' @ property) = None"
  then show "proxy_get cl path property = Inr Undefined"
    unfolding proxy_get_method [OF p] by (simp add: js_in_def)
next
  assume p: "property \<in> set [''post'', ''put'', ''patch'', ''delete'']"
    and "resolve cl path = Inl e \<or> (resolve cl path = Inr rpc \<and> props rpc = None)"
  then show "proxy_get cl path property = Inl TypeError"
    unfolding proxy_get_method [OF p] by (auto simp: js_in_def dest: resolve_error)
next
  show "method_hooks_get path property ''useMutation'' = UseMutation path property"
    by (simp add: method_hooks_get_def)
next
  assume "hookProperty \<noteq> ''useMutation''"
  then show "method_hooks_get path property hookProperty = Undefined"
    by (simp add: method_hooks_get_def)
next
  assume "property \<in> set [''useQuery'', ''useInfiniteQuery'', ''post'', ''put'', ''patch'', ''delete'']"
  then show "proxy_get cl path property \<noteq> Inr (HonoQueryProxy q)"
    using proxy_get_extends [of cl path property q] by blast
next
  assume "property \<notin> set [''useQuery'', ''useInfiniteQuery'', ''post'', ''put'', ''patch'', ''delete'']
        \<and> \<not> startsWith property ''$''"
  then show "proxy_get cl path property = Inr (HonoQueryProxy (path @ [property]))"
    by (simp add: proxy_get_plain)
next
  assume "\<forall>s \<in> set segs.
          s \<notin> set [''useQuery'', ''useInfiniteQuery'', ''post'', ''put'', ''patch'', ''delete'']
          \<and> \<not> startsWith s ''$''"
  then show "traverse cl path segs = Inr (HonoQueryProxy (path @ segs), [])"
    by (intro traverse_plain) blast
next
  assume t: "traverse cl [] segs = Inr (HonoQueryProxy q, rest)"
  from traverse_reaches [OF t] show "rest = []" by simp
  from traverse_reaches [OF t] show "q = segs" by simp
  from traverse_reaches [OF t]
  show "\<forall>s \<in> set q.
      s \<notin> set [''useQuery'', ''useInfiniteQuery'', ''post'', ''put'', ''patch'', ''delete'']
      \<and> \<not> startsWith s ''$''"
    by simp
qed

text \<open>
  Claim C7, as stated, fails: on an endpoint that has \<open>$get\<close> only, the reserved name
  \<open>post\<close> gives undefined, not a bound hook.
\<close>

theorem reserved_name_undefined_counterexample:
  "proxy_get (endpoint_client [''users''] ''$get'' echo_ok) [''users''] ''post'' = Inr Undefined"
  by (simp add: proxy_get_def js_in_def)

text \<open>
  On a transport whose only endpoint is \<open>patch\<close> at \<open>users / :id\<close>: \<open>$get\<close> is
  undefined, \<open>patch\<close> gives the hook object at the endpoint, \<open>delete\<close> gives undefined
  there, \<open>patch\<close> throws at \<open>users / :id / more\<close>, which resolves to undefined, and
  traversal by \<open>users\<close> and \<open>:id\<close> reaches the proxy at that path.
\<close>

theorem proxy_get_by_property_name_witness:
  "proxy_get (endpoint_client [''users'', '':id''] ''$patch'' echo_ok) [''users''] ''$get''
     = Inr Undefined
   \<and> proxy_get (endpoint_client [''users'', '':id''] ''$patch'' echo_ok)
        [''users'', '':id''] ''patch''
     = Inr (MethodHooks [''users'', '':id''] ''patch'')
   \<and> proxy_get (endpoint_client [''users'', '':id''] ''$patch'' echo_ok)
        [''users'', '':id''] ''delete''
     = Inr Undefined
   \<and> proxy_get (endpoint_client [''users'', '':id''] ''$patch'' echo_ok)
        [''users'', '':id'', ''more''] ''patch''
     = Inl TypeError
   \<and> proxy_get (endpoint_client [''users'', '':id''] ''$patch'' echo_ok) [''users''] '':id''
     = Inr (HonoQueryProxy [''users'', '':id''])
   \<and> traverse (endpoint_client [''users'', '':id''] ''$patch'' echo_ok) [] [''users'', '':id'']
     = Inr (HonoQueryProxy [''users'', '':id''], [])"
proof -
  let ?cl = "endpoint_client [''users'', '':id''] ''$patch'' echo_ok"
  let ?leaf = "[''$patch'' \<mapsto> CFun echo_ok Map.empty]"
  have r: "resolve ?cl [''users'', '':id''] = Inr (CObj ?leaf)"
    by simp
  have r': "resolve ?cl [''users'', '':id'', ''more''] = Inr CUndefined"
    by simp
  have pr: "props (CObj ?leaf) = Some ?leaf" and pr': "props CUndefined = None"
    by simp_all
  have has: "?leaf (''$'' @ ''patch'') \<noteq> None" and hasnt: "?leaf (''$'' @ ''delete'') = None"
    by simp_all
  have s: "startsWith ''$get'' ''$''" and ns: "\<not> startsWith '':id'' ''$''"
    and ns': "\<forall>s \<in> set [''users'', '':id''].
      s \<notin> set [''useQuery'', ''useInfiniteQuery'', ''post'', ''put'', ''patch'', ''delete'']
      \<and> \<not> startsWith s ''$''"
    by (simp_all add: startsWith_def)
  note a = proxy_get_by_property_name
      [where cl = ?cl and path = "[''users'']" and property = "''$get''"]
  note b = proxy_get_by_property_name
      [where cl = ?cl and path = "[''users'', '':id'']" and property = "''patch''"
         and rpc = "CObj ?leaf" and m = ?leaf]
  note c = proxy_get_by_property_name
      [where cl = ?cl and path = "[''users'', '':id'']" and property = "''delete''"
         and rpc = "CObj ?leaf" and m = ?leaf]
  note d = proxy_get_by_property_name
      [where cl = ?cl and path = "[''users'', '':id'', ''more'']" and property = "''patch''"
         and rpc = CUndefined]
  note e = proxy_get_by_property_name
      [where cl = ?cl and path = "[''users'']" and property = "'':id''"]
  note f = proxy_get_by_property_name
      [where cl = ?cl and path = "[]" and segs = "[''users'', '':id'']"]
  from a [THEN conjunct1] s have 1: "proxy_get ?cl [''users''] ''$get'' = Inr Undefined"
    by (rule mp)
  from b r pr has have 2: "proxy_get ?cl [''users'', '':id''] ''patch''
      = Inr (MethodHooks [''users'', '':id''] ''patch'')"
    by simp
  from c r pr hasnt have 3: "proxy_get ?cl [''users'', '':id''] ''delete'' = Inr Undefined"
    by simp
  from d r' pr' have 4: "proxy_get ?cl [''users'', '':id'', ''more''] ''patch'' = Inl TypeError"
    by simp
  from e ns have 5: "proxy_get ?cl [''users''] '':id'' = Inr (HonoQueryProxy [''users'', '':id''])"
    by simp
  from f [THEN conjunct2, THEN conjunct2, THEN conjunct2, THEN conjunct2, THEN conjunct2,
      THEN conjunct2, THEN conjunct1] ns'
  have "traverse ?cl [] [''users'', '':id''] = Inr (HonoQueryProxy ([] @ [''users'', '':id'']), [])"
    by (rule mp)
  then have 6: "traverse ?cl [] [''users'', '':id'']
      = Inr (HonoQueryProxy [''users'', '':id''], [])"
    by simp
  show ?thesis by (simp only: 1 2 3 4 5 6 simp_thms)
qed

section \<open>Paths that do not resolve\<close>

lemma resolve_append:
  "resolve cl (a @ b) = (case resolve cl a of Inl e \<Rightarrow> Inl e | Inr c \<Rightarrow> resolve c b)"
  by (induction a arbitrary: cl) (auto split: sum.splits)

lemma resolve_missing_segment:
  assumes "resolve cl pre = Inr obj" and "index obj s = Inr CUndefined" and "rest \<noteq> []"
  shows "resolve cl (pre @ s # rest) = Inl TypeError"
proof -
  from assms(3) obtain r rs where rest: "rest = r # rs" by (cases rest) auto
  show ?thesis using assms(1,2) by (simp add: resolve_append rest)
qed

text \<open>
  Claim C8, as amended. When reading an intermediate segment of a path yields undefined
  or null, as it does when the object being traversed has no such property, resolving the
  path fails with the runtime's \<open>TypeError\<close>, never with a \<open>HonoQueryError\<close>, and
  without a transport call. For the query hooks the failure arises inside the fetch
  function: the hooks themselves are handed out. For a mutating method name it arises
  when the name is read off the proxy, and again inside the mutation function. Plain
  traversal to the path does not fail.
\<close>

theorem missing_segment_raises_TypeError:
  assumes "resolve cl pre = Inr obj" and "index obj s = Inr CUndefined" and "rest \<noteq> []"
  shows "resolve cl (pre @ s # rest) = Inl TypeError
       \<and> proxy_get cl (pre @ s # rest) ''useQuery'' = Inr (UseQuery (pre @ s # rest))
       \<and> proxy_get cl (pre @ s # rest) ''useInfiniteQuery''
            = Inr (UseInfiniteQuery (pre @ s # rest))
       \<and> useQuery_queryFn cl (pre @ s # rest) input = ([], Inl TypeError)
       \<and> useInfiniteQuery_queryFn cl (pre @ s # rest) input pageParam = ([], Inl TypeError)
       \<and> mutationFn cl (pre @ s # rest) meth v = ([], Inl TypeError)
       \<and> (m \<in> set [''post'', ''put'', ''patch'', ''delete''] \<longrightarrow>
            proxy_get cl (pre @ s # rest) m = Inl TypeError)
       \<and> ((\<forall>x \<in> set (pre @ s # rest).
              x \<notin> set [''useQuery'', ''useInfiniteQuery'', ''post'', ''put'', ''patch'', ''delete'']
              \<and> \<not> startsWith x ''$'') \<longrightarrow>
            traverse cl [] (pre @ s # rest) = Inr (HonoQueryProxy (pre @ s # rest), []))
       \<and> TypeError \<noteq> RequestError e"
proof -
  have r: "resolve cl (pre @ s # rest) = Inl TypeError"
    using assms by (rule resolve_missing_segment)
  have g: "proxy_get cl (pre @ s # rest) m = Inl TypeError"
    if m: "m \<in> set [''post'', ''put'', ''patch'', ''delete'']"
    unfolding proxy_get_method [OF m] by (simp add: r)
  have t: "traverse cl [] (pre @ s # rest) = Inr (HonoQueryProxy (pre @ s # rest), [])"
    if h: "\<forall>x \<in> set (pre @ s # rest).
          x \<notin> set [''useQuery'', ''useInfiniteQuery'', ''post'', ''put'', ''patch'', ''delete'']
          \<and> \<not> startsWith x ''$''"
  proof -
    have "traverse cl [] (pre @ s # rest) = Inr (HonoQueryProxy ([] @ pre @ s # rest), [])"
      by (rule traverse_plain) (rule h [rule_format])
    then show ?thesis by simp
  qed
  have q: "proxy_get cl (pre @ s # rest) ''useQuery'' = Inr (UseQuery (pre @ s # rest))"
    "proxy_get cl (pre @ s # rest) ''useInfiniteQuery'' = Inr (UseInfiniteQuery (pre @ s # rest))"
    by (simp_all add: proxy_get_def)
  have f: "useQuery_queryFn cl (pre @ s # rest) input = ([], Inl TypeError)"
    "useInfiniteQuery_queryFn cl (pre @ s # rest) input pageParam = ([], Inl TypeError)"
    "mutationFn cl (pre @ s # rest) meth v = ([], Inl TypeError)"
    by (simp_all add: useQuery_queryFn_def useInfiniteQuery_queryFn_def mutationFn_def r)
  from r g t q f show ?thesis by blast
qed

text \<open>
  Claim C8, as stated, fails: on a transport without \<open>missing\<close>, traversal to
  \<open>missing / child\<close> succeeds, and reading \<open>post\<close> there already raises the error,
  before there is a hook to call.
\<close>

theorem missing_segment_at_access_counterexample:
  "traverse (endpoint_client [''users''] ''$post'' echo_ok) [] [''missing'', ''child'']
     = Inr (HonoQueryProxy [''missing'', ''child''], [])
   \<and> proxy_get (endpoint_client [''users''] ''$post'' echo_ok) [''missing'', ''child''] ''post''
     = Inl TypeError"
  by (simp add: proxy_get_def startsWith_def)

text \<open>
  On a transport whose only endpoint is \<open>post\<close> at \<open>users\<close>, at the path
  \<open>users / missing / child\<close>: the fetch function and the mutation function fail with
  a \<open>TypeError\<close> and no transport call, reading \<open>post\<close> throws, and traversal to the
  path succeeds.
\<close>

theorem missing_segment_raises_TypeError_witness:
  "useQuery_queryFn (endpoint_client [''users''] ''$post'' echo_ok)
      [''users'', ''missing'', ''child''] JUndefined = ([], Inl TypeError)
   \<and> mutationFn (endpoint_client [''users''] ''$post'' echo_ok)
      [''users'', ''missing'', ''child''] ''post'' JUndefined = ([], Inl TypeError)
   \<and> proxy_get (endpoint_client [''users''] ''$post'' echo_ok)
      [''users'', ''missing'', ''child''] ''post'' = Inl TypeError
   \<and> traverse (endpoint_client [''users''] ''$post'' echo_ok) []
      [''users'', ''missing'', ''child'']
     = Inr (HonoQueryProxy [''users'', ''missing'', ''child''], [])"
proof -
  let ?cl = "endpoint_client [''users''] ''$post'' echo_ok"
  have a: "resolve ?cl [''users''] = Inr (CObj [''$post'' \<mapsto> CFun echo_ok Map.empty])" by simp
  have b: "index (CObj [''$post'' \<mapsto> CFun echo_ok Map.empty]) ''missing'' = Inr CUndefined"
    by simp
  have c: "[''child''] \<noteq> []" by simp
  have p: "\<forall>x \<in> set ([''users''] @ ''missing'' # [''child'']).
      x \<notin> set [''useQuery'', ''useInfiniteQuery'', ''post'', ''put'', ''patch'', ''delete'']
      \<and> \<not> startsWith x ''$''"
    by (simp add: startsWith_def)
  note t = missing_segment_raises_TypeError [OF a b c,
        where input = JUndefined and meth = "''post''" and v = JUndefined and m = "''post''"]
  from t p have "traverse ?cl [] ([''users''] @ ''missing'' # [''child''])
      = Inr (HonoQueryProxy ([''users''] @ ''missing'' # [''child'']), [])"
    by blast
  with t show ?thesis by simp
qed

section \<open>The utils proxy\<close>



section \<open>The message of a request error\<close>

lemma truthy_message:
  "truthy a \<Longrightarrow> Error_message (js_or a (JStr t)) = js_to_string a"
  by (cases a) (auto simp: Error_message_def js_or_def)

lemma falsy_message:
  "\<not> truthy a \<Longrightarrow> Error_message (js_or a (JStr t)) = Inr t"
  by (simp add: Error_message_def js_or_def)

text \<open>
  Claim C10, as amended. The message of a constructed \<open>HonoQueryError\<close> is the
  payload's \<open>message\<close> when that is truthy (itself when it is a string, its string
  conversion otherwise) and the response's status text when it is not. An error whose
  payload has a non-empty string as its message is constructed with that message, which is
  non-empty; an error whose payload has no truthy message is constructed with the status
  text, and its message is non-empty exactly when the status text is.
\<close>

theorem error_message_from_payload_or_statusText:
  "(HonoQueryError res d = Inr err \<longrightarrow>
      (truthy (opt_prop d ''message'') \<longrightarrow>
         js_to_string (opt_prop d ''message'') = Inr (message err))
      \<and> (\<not> truthy (opt_prop d ''message'') \<longrightarrow> message err = statusText res)
      \<and> response err = res \<and> data err = d)
   \<and> (opt_prop d ''message'' = JStr s \<and> s \<noteq> [] \<longrightarrow>
        HonoQueryError res d =
          Inr \<lparr> name = ''HonoQueryError'', message = s, response = res, data = d \<rparr>)
   \<and> (\<not> truthy (opt_prop d ''message'') \<longrightarrow>
        HonoQueryError res d =
          Inr \<lparr> name = ''HonoQueryError'', message = statusText res, response = res, data = d \<rparr>)"
proof (intro conjI impI)
  assume c: "HonoQueryError res d = Inr err"
  show "response err = res" and "data err = d"
    using c by (auto simp: HonoQueryError_def split: sum.splits)
  {
    assume t: "truthy (opt_prop d ''message'')"
    from c show "js_to_string (opt_prop d ''message'') = Inr (message err)"
      by (auto simp: HonoQueryError_def truthy_message [OF t] split: sum.splits)
  }
  {
    assume f: "\<not> truthy (opt_prop d ''message'')"
    from c show "message err = statusText res"
      by (auto simp: HonoQueryError_def falsy_message [OF f])
  }
next
  assume "opt_prop d ''message'' = JStr s \<and> s \<noteq> []"
  then show "HonoQueryError res d =
      Inr \<lparr> name = ''HonoQueryError'', message = s, response = res, data = d \<rparr>"
    by (simp add: HonoQueryError_def Error_message_def js_or_def)
next
  assume f: "\<not> truthy (opt_prop d ''message'')"
  show "HonoQueryError res d =
      Inr \<lparr> name = ''HonoQueryError'', message = statusText res, response = res, data = d \<rparr>"
    by (simp add: HonoQueryError_def falsy_message [OF f])
qed

text \<open>
  Claim C10, as stated, fails: a response with an empty status text and a payload without
  a message gives an error whose message is empty.
\<close>

theorem empty_message_counterexample:
  "HonoQueryError empty_statusText_500 (JObj []) =
     Inr \<lparr> name = ''HonoQueryError'', message = [], response = empty_statusText_500,
           data = JObj [] \<rparr>"
  by (simp add: HonoQueryError_def empty_statusText_500_def Error_message_def js_or_def)

text \<open>
  A string message is the error's message; a payload without a message gives the status
  text; the number \<open>1e+21\<close> as a message gives its text.
\<close>

theorem error_message_from_payload_or_statusText_witness:
  "HonoQueryError validation_422
       (JObj [(''message'', JStr ''X''), (''errors'', JArr [JStr ''title''])])
     = Inr \<lparr> name = ''HonoQueryError'', message = ''X'', response = validation_422,
             data = JObj [(''message'', JStr ''X''), (''errors'', JArr [JStr ''title''])] \<rparr>
   \<and> HonoQueryError unparseable_500 (JObj [(''code'', JNum ''7'')])
     = Inr \<lparr> name = ''HonoQueryError'', message = statusText unparseable_500,
             response = unparseable_500, data = JObj [(''code'', JNum ''7'')] \<rparr>
   \<and> HonoQueryError unparseable_500 (JObj [(''message'', JNum ''1e+21'')])
     = Inr \<lparr> name = ''HonoQueryError'', message = ''1e+21'', response = unparseable_500,
             data = JObj [(''message'', JNum ''1e+21'')] \<rparr>
   \<and> js_to_string (JNum ''1e+21'') = Inr ''1e+21''"
proof -
  note a = error_message_from_payload_or_statusText
      [where res = validation_422 and s = "''X''"
         and d = "JObj [(''message'', JStr ''X''), (''errors'', JArr [JStr ''title''])]"]
  note b = error_message_from_payload_or_statusText
      [where res = unparseable_500 and d = "JObj [(''code'', JNum ''7'')]"]
  note c = error_message_from_payload_or_statusText
      [where res = unparseable_500 and d = "JObj [(''message'', JNum ''1e+21'')]"
         and err = "\<lparr> name = ''HonoQueryError'', message = ''1e+21'',
           response = unparseable_500, data = JObj [(''message'', JNum ''1e+21'')] \<rparr>"]
  from a have 1: "HonoQueryError validation_422
       (JObj [(''message'', JStr ''X''), (''errors'', JArr [JStr ''title''])])
     = Inr \<lparr> name = ''HonoQueryError'', message = ''X'', response = validation_422,
             data = JObj [(''message'', JStr ''X''), (''errors'', JArr [JStr ''title''])] \<rparr>"
    by simp
  from b have 2: "HonoQueryError unparseable_500 (JObj [(''code'', JNum ''7'')])
     = Inr \<lparr> name = ''HonoQueryError'', message = statusText unparseable_500,
             response = unparseable_500, data = JObj [(''code'', JNum ''7'')] \<rparr>"
    by simp
  have 3: "HonoQueryError unparseable_500 (JObj [(''message'', JNum ''1e+21'')])
     = Inr \<lparr> name = ''HonoQueryError'', message = ''1e+21'', response = unparseable_500,
             data = JObj [(''message'', JNum ''1e+21'')] \<rparr>"
    by (simp add: HonoQueryError_def Error_message_def js_or_def)
  from c 3 have 4: "js_to_string (JNum ''1e+21'') = Inr ''1e+21''"
    by simp
  from 1 2 3 4 show ?thesis by (intro conjI)
qed

end
